theory Spec2Isabelle
  imports Main "HOL-Library.AList" "HOL-Library.Sublist"
begin

section \<open>Strings: \<open>str.lower\<close> and \<open>os.path.splitext\<close>\<close>

text \<open>
  A blob name is a Python \<open>str\<close>, modelled as a \<open>string\<close>. \<open>str.lower\<close> maps the
  letters \<open>A\<close>..\<open>Z\<close> to \<open>a\<close>..\<open>z\<close> and leaves every other character of the model
  alone; the four extensions of the lookup table are ASCII, and neither \<open>.\<close> nor \<open>/\<close>
  is a letter.
\<close>

definition lower_char :: "char \<Rightarrow> char" where
  "lower_char c =
     (let n = (of_char c :: nat)
      in if 65 \<le> n \<and> n \<le> 90 then char_of (n + 32) else c)"

definition lower :: "string \<Rightarrow> string" where
  "lower s = map lower_char s"

text \<open>
  \<open>str.rfind\<close> with a one-character needle: the index of its last occurrence, or
  \<open>-1\<close> when there is none.
\<close>

fun rfind :: "string \<Rightarrow> char \<Rightarrow> int" where
  "rfind [] c = - 1"
| "rfind (x # xs) c =
     (let r = rfind xs c
      in if 0 \<le> r then r + 1 else if x = c then 0 else - 1)"

text \<open>
  The handler runs on Linux, where \<open>os.path.splitext\<close> is the standard library's
  \<open>posixpath.splitext\<close>, which calls
  \<open>genericpath._splitext(p, sep='/', altsep=None, extsep='.')\<close>:
  \<^verbatim>\<open>
    sepIndex = p.rfind(sep)
    dotIndex = p.rfind(extsep)
    if dotIndex > sepIndex:
        # skip all leading dots
        filenameIndex = sepIndex + 1
        while filenameIndex < dotIndex:
            if p[filenameIndex:filenameIndex+1] != extsep:
                return p[:dotIndex], p[dotIndex:]
            filenameIndex += 1
    return p, p[:0]
  \<close>
  The loop is \<open>skip_leading_dots\<close>; the slice \<open>p[i:i+1]\<close> is \<open>take 1 (drop i p)\<close>.
\<close>

function skip_leading_dots :: "string \<Rightarrow> nat \<Rightarrow> nat \<Rightarrow> string \<times> string" where
  "skip_leading_dots p filenameIndex dotIndex =
     (if filenameIndex < dotIndex then
        (if take 1 (drop filenameIndex p) \<noteq> ''.''
         then (take dotIndex p, drop dotIndex p)
         else skip_leading_dots p (filenameIndex + 1) dotIndex)
      else (p, []))"
  by pat_completeness auto
termination
  by (relation "measure (\<lambda>(p, filenameIndex, dotIndex). dotIndex - filenameIndex)") auto

declare skip_leading_dots.simps [simp del]

definition splitext :: "string \<Rightarrow> string \<times> string" where
  "splitext p =
     (let sepIndex = rfind p (CHR ''/'');
          dotIndex = rfind p (CHR ''.'')
      in if dotIndex > sepIndex
         then skip_leading_dots p (nat (sepIndex + 1)) (nat dotIndex)
         else (p, []))"

section \<open>The content type of a blob name (lines 44--54 of \<open>main\<close>)\<close>

definition file_extension :: "string \<Rightarrow> string" where
  "file_extension name = lower (snd (splitext name))"

definition content_type_of :: "string \<Rightarrow> string" where
  "content_type_of ext =
     (if ext = ''.txt'' then ''text/plain''
      else if ext = ''.edi'' then ''application/edi''
      else if ext = ''.xml'' then ''application/xml''
      else if ext = ''.json'' then ''application/json''
      else ''text/plain'')"

definition classify :: "string \<Rightarrow> string" where
  "classify name = content_type_of (file_extension name)"

section \<open>The audit store\<close>

text \<open>
  The store is the SQL database behind the \<open>pyodbc\<close> connection. A database is the
  list of its user tables by name (the rows of \<open>sysobjects\<close> with \<open>xtype='U'\<close>) and
  the server clock that \<open>GETDATE()\<close> reads. A table has its column declarations, its
  rows in insertion order and the next value of its \<open>IDENTITY\<close> column, which starts
  at 1 and grows by 1.
\<close>

record audit_record =
  row_Id :: int
  BlobName :: string
  BlobSize :: int
  ProcessedAt :: nat
  ContentType :: string
  Status :: string

record table =
  columns :: "(string \<times> string) list"
  rows :: "audit_record list"
  next_identity :: int

record database =
  tables :: "(string \<times> table) list"
  getdate :: nat

text \<open>An SQL error, as \<open>pyodbc\<close> reports it: the SQLSTATE and the message.\<close>

type_synonym sql_error = "string \<times> string"

definition table_exists :: "string \<Rightarrow> database \<Rightarrow> bool" where
  "table_exists nm db = (map_of (tables db) nm \<noteq> None)"

definition count_tables :: "string \<Rightarrow> database \<Rightarrow> nat" where
  "count_tables nm db = length (filter (\<lambda>e. fst e = nm) (tables db))"

definition BlobAudit_columns :: "(string \<times> string) list" where
  "BlobAudit_columns =
     [(''Id'', ''INT IDENTITY PRIMARY KEY''),
      (''BlobName'', ''NVARCHAR(500)''),
      (''BlobSize'', ''BIGINT''),
      (''ProcessedAt'', ''DATETIME DEFAULT GETDATE()''),
      (''ContentType'', ''NVARCHAR(100)''),
      (''Status'', ''NVARCHAR(50) DEFAULT Processed'')]"

text \<open>
  \<open>CREATE TABLE BlobAudit (...)\<close>: an error when a table of that name is there
  already, a new empty table otherwise.
\<close>

definition create_table :: "database \<Rightarrow> sql_error + database" where
  "create_table db =
     (if table_exists ''BlobAudit'' db
      then Inl (''42S01'', ''There is already an object named BlobAudit in the database.'')
      else Inr (db\<lparr>tables := tables db @
                  [(''BlobAudit'',
                    \<lparr>columns = BlobAudit_columns, rows = [], next_identity = 1\<rparr>)]\<rparr>))"

text \<open>
  The statement of lines 29--39:
  \<open>IF NOT EXISTS (SELECT * FROM sysobjects WHERE name='BlobAudit' AND xtype='U')
  CREATE TABLE BlobAudit (...)\<close>.
\<close>

definition create_table_sql :: "database \<Rightarrow> sql_error + database" where
  "create_table_sql db =
     (if \<not> table_exists ''BlobAudit'' db then create_table db else Inr db)"

text \<open>
  The statement of lines 57--60:
  \<open>INSERT INTO BlobAudit (BlobName, BlobSize, ContentType, Status) VALUES (?, ?, ?, ?)\<close>.
  \<open>Id\<close> takes the next identity value and \<open>ProcessedAt\<close> its default \<open>GETDATE()\<close>.
\<close>

definition insert_sql ::
  "string \<times> int \<times> string \<times> string \<Rightarrow> database \<Rightarrow> sql_error + database" where
  "insert_sql params db =
     (case params of (blobName, blobSize, contentType, status) \<Rightarrow>
        (case map_of (tables db) ''BlobAudit'' of
           None \<Rightarrow> Inl (''42S02'', ''Invalid object name BlobAudit.'')
         | Some t \<Rightarrow>
             Inr (db\<lparr>tables := AList.update ''BlobAudit''
                    (t\<lparr>rows := rows t @
                          [\<lparr>row_Id = next_identity t, BlobName = blobName,
                            BlobSize = blobSize, ProcessedAt = getdate db,
                            ContentType = contentType, Status = status\<rparr>],
                        next_identity := next_identity t + 1\<rparr>)
                    (tables db)\<rparr>)))"

text \<open>The statement of line 66: \<open>SELECT COUNT(*) FROM BlobAudit\<close>.\<close>

definition select_count_sql :: "database \<Rightarrow> sql_error + nat" where
  "select_count_sql db =
     (case map_of (tables db) ''BlobAudit'' of
        None \<Rightarrow> Inl (''42S02'', ''Invalid object name BlobAudit.'')
      | Some t \<Rightarrow> Inr (length (rows t)))"

definition audit_rows :: "database \<Rightarrow> audit_record list" where
  "audit_rows db = (case map_of (tables db) ''BlobAudit'' of None \<Rightarrow> [] | Some t \<Rightarrow> rows t)"

definition next_audit_id :: "database \<Rightarrow> int" where
  "next_audit_id db =
     (case map_of (tables db) ''BlobAudit'' of None \<Rightarrow> 1 | Some t \<Rightarrow> next_identity t)"

section \<open>The calls of \<open>main\<close> into \<open>pyodbc\<close>\<close>

text \<open>
  Each call site of \<open>main\<close> into \<open>pyodbc\<close>, in source order:
  \<open>Connect\<close> (line 24), \<open>Cursor\<close> (25), \<open>ExecCreate\<close> (40), \<open>CommitCreate\<close> (41),
  \<open>ExecInsert\<close> (61), \<open>CommitInsert\<close> (62), \<open>ExecCount\<close> (66), \<open>FetchOne\<close> (67),
  \<open>CloseCur\<close> (71), \<open>CloseCn\<close> (72), and in the \<open>finally\<close> block \<open>FinCloseCur\<close> (88)
  and \<open>FinCloseCn\<close> (90).

  Whether a call returns or raises is the store's and the driver's doing, so it is a
  parameter of the model: a plan gives each call site its outcome. \<open>pyodbc\<close> raises its
  errors with \<open>args = (SQLSTATE, message)\<close>; any other exception is \<open>RaisesOther\<close>.
  A call the plan lets through has the effect its SQL text has on the database; a call
  that raises changes nothing but the record of the calls made.
\<close>

datatype call =
  Connect | Cursor | ExecCreate | CommitCreate | ExecInsert | CommitInsert
  | ExecCount | FetchOne | CloseCur | CloseCn | FinCloseCur | FinCloseCn

datatype outcome = Ok | RaisesDbError string string | RaisesOther

text \<open>
  The exceptions that leave \<open>main\<close>: the \<open>ValueError\<close> of line 19, a \<open>pyodbc.Error\<close>
  with the call that raised it and its two arguments, and any other exception with the
  call that raised it.
\<close>

datatype exn = ValueError | PyodbcError call string string | OtherException call

datatype handle = Unbound | Open | Closed

text \<open>
  The state of one invocation: the committed database, the connection's view of it
  (with the changes of the open transaction), the local variables \<open>cn\<close>, \<open>cur\<close> and
  \<open>total_count\<close>, the result row the cursor holds, and the calls made so far.
\<close>

record state =
  durable :: database
  working :: database
  cn :: handle
  cur :: handle
  pending_row :: "nat option"
  total_count :: "nat option"
  trace :: "call list"

type_synonym step = "state \<Rightarrow> exn option \<times> state"

text \<open>Statements in sequence: the first exception ends the sequence.\<close>

fun run :: "step list \<Rightarrow> step" where
  "run [] s = (None, s)"
| "run (f # fs) s = (case f s of (None, s') \<Rightarrow> run fs s' | (Some e, s') \<Rightarrow> (Some e, s'))"

definition call_store :: "(call \<Rightarrow> outcome) \<Rightarrow> call \<Rightarrow> step \<Rightarrow> step" where
  "call_store plan c effect s =
     (let s' = s\<lparr>trace := trace s @ [c]\<rparr>
      in case plan c of
           Ok \<Rightarrow> effect s'
         | RaisesDbError sqlstate msg \<Rightarrow> (Some (PyodbcError c sqlstate msg), s')
         | RaisesOther \<Rightarrow> (Some (OtherException c), s'))"

definition sql_effect :: "call \<Rightarrow> (database \<Rightarrow> sql_error + database) \<Rightarrow> step" where
  "sql_effect c stmt s =
     (case stmt (working s) of
        Inl (sqlstate, msg) \<Rightarrow> (Some (PyodbcError c sqlstate msg), s)
      | Inr db \<Rightarrow> (None, s\<lparr>working := db\<rparr>))"

text \<open>Lines 17--19: \<open>os.environ.get\<close> and the test \<open>if not conn_str\<close>.\<close>

definition get_conn_str :: "(string \<rightharpoonup> string) \<Rightarrow> step" where
  "get_conn_str environ s =
     (case environ ''SQLConnectionString'' of
        None \<Rightarrow> (Some ValueError, s)
      | Some conn_str \<Rightarrow> if conn_str = [] then (Some ValueError, s) else (None, s))"

definition connect :: "(call \<Rightarrow> outcome) \<Rightarrow> step" where
  "connect plan = call_store plan Connect (\<lambda>s. (None, s\<lparr>cn := Open, working := durable s\<rparr>))"

definition cursor :: "(call \<Rightarrow> outcome) \<Rightarrow> step" where
  "cursor plan = call_store plan Cursor (\<lambda>s. (None, s\<lparr>cur := Open\<rparr>))"

definition commit :: "(call \<Rightarrow> outcome) \<Rightarrow> call \<Rightarrow> step" where
  "commit plan c = call_store plan c (\<lambda>s. (None, s\<lparr>durable := working s\<rparr>))"

text \<open>Lines 28--42, the schema step: the conditional \<open>CREATE TABLE\<close> and its commit.\<close>

definition exec_create :: "(call \<Rightarrow> outcome) \<Rightarrow> step" where
  "exec_create plan = call_store plan ExecCreate (sql_effect ExecCreate create_table_sql)"

definition ensure :: "(call \<Rightarrow> outcome) \<Rightarrow> step" where
  "ensure plan = run [exec_create plan, commit plan CommitCreate]"

section \<open>The handler \<open>main\<close>\<close>

text \<open>
  The \<open>func.InputStream\<close> the trigger passes in: the blob's name, its length and the
  bytes that \<open>read()\<close> returns.
\<close>

record input_stream =
  blob_name :: string
  blob_length :: int
  blob_content :: string

text \<open>Lines 56--63, the audit insert; its commit is the next step of \<open>try_body\<close>.\<close>

definition exec_insert :: "(call \<Rightarrow> outcome) \<Rightarrow> input_stream \<Rightarrow> step" where
  "exec_insert plan inputBlob =
     call_store plan ExecInsert
       (sql_effect ExecInsert
          (insert_sql (blob_name inputBlob, blob_length inputBlob,
                       classify (blob_name inputBlob), ''Processed'')))"

text \<open>
  Lines 65--68, the count: \<open>execute\<close> leaves the one result row with the cursor and
  changes nothing in the database; \<open>fetchone()[0]\<close> reads it into \<open>total_count\<close>, and
  is a \<open>TypeError\<close> when the cursor holds no row.
\<close>

definition exec_count :: "(call \<Rightarrow> outcome) \<Rightarrow> step" where
  "exec_count plan =
     call_store plan ExecCount
       (\<lambda>s. case select_count_sql (working s) of
               Inl (sqlstate, msg) \<Rightarrow> (Some (PyodbcError ExecCount sqlstate msg), s)
             | Inr n \<Rightarrow> (None, s\<lparr>pending_row := Some n\<rparr>))"

definition fetchone :: "(call \<Rightarrow> outcome) \<Rightarrow> step" where
  "fetchone plan =
     call_store plan FetchOne
       (\<lambda>s. case pending_row s of
               None \<Rightarrow> (Some (OtherException FetchOne), s)
             | Some n \<Rightarrow> (None, s\<lparr>pending_row := None, total_count := Some n\<rparr>))"

definition count_all :: "(call \<Rightarrow> outcome) \<Rightarrow> step" where
  "count_all plan = run [exec_count plan, fetchone plan]"

text \<open>
  \<open>cur.close()\<close> and \<open>cn.close()\<close>, at the call site \<open>c\<close>. A close that returns
  releases the handle; closing the connection drops the changes of a transaction that
  was never committed. A close that raises leaves the handle as it was.
\<close>

definition close_cur :: "(call \<Rightarrow> outcome) \<Rightarrow> call \<Rightarrow> step" where
  "close_cur plan c = call_store plan c (\<lambda>s. (None, s\<lparr>cur := Closed\<rparr>))"

definition close_cn :: "(call \<Rightarrow> outcome) \<Rightarrow> call \<Rightarrow> step" where
  "close_cn plan c = call_store plan c (\<lambda>s. (None, s\<lparr>cn := Closed, working := durable s\<rparr>))"

text \<open>Lines 15--74, the body of the \<open>try\<close> statement.\<close>

definition try_body :: "(string \<rightharpoonup> string) \<Rightarrow> (call \<Rightarrow> outcome) \<Rightarrow> input_stream \<Rightarrow> step" where
  "try_body environ plan inputBlob =
     run [get_conn_str environ,
          connect plan,
          cursor plan,
          exec_create plan,
          commit plan CommitCreate,
          exec_insert plan inputBlob,
          commit plan CommitInsert,
          exec_count plan,
          fetchone plan,
          close_cur plan CloseCur,
          close_cn plan CloseCn]"

text \<open>
  Lines 76--83, the two \<open>except\<close> clauses: each logs and ends in a bare \<open>raise\<close>, so
  the exception caught is the exception raised again. Line 78 reads \<open>args[0]\<close> of the
  \<open>pyodbc.Error\<close>, its SQLSTATE.
\<close>

fun except_clauses :: "exn \<Rightarrow> exn" where
  "except_clauses (PyodbcError c sqlstate msg) = PyodbcError c sqlstate msg"
| "except_clauses e = e"

text \<open>
  Lines 84--92, the \<open>finally\<close> block: \<open>cur\<close> and \<open>cn\<close> are closed when they are bound
  (\<open>'cur' in locals() and cur\<close>), both inside one \<open>try\<close> whose \<open>except: pass\<close> drops
  whatever they raise, so that a \<open>cur.close()\<close> that raises skips \<open>cn.close()\<close>.
\<close>

definition fin_close_cur :: "(call \<Rightarrow> outcome) \<Rightarrow> step" where
  "fin_close_cur plan s = (if cur s \<noteq> Unbound then close_cur plan FinCloseCur s else (None, s))"

definition fin_close_cn :: "(call \<Rightarrow> outcome) \<Rightarrow> step" where
  "fin_close_cn plan s = (if cn s \<noteq> Unbound then close_cn plan FinCloseCn s else (None, s))"

definition finally_block :: "(call \<Rightarrow> outcome) \<Rightarrow> state \<Rightarrow> state" where
  "finally_block plan s = snd (run [fin_close_cur plan, fin_close_cn plan] s)"

definition initial :: "database \<Rightarrow> state" where
  "initial db =
     \<lparr>durable = db, working = db, cn = Unbound, cur = Unbound,
      pending_row = None, total_count = None, trace = []\<rparr>"

text \<open>
  One invocation of \<open>main\<close> on the store \<open>db\<close>: the exception that reaches the caller
  (\<open>None\<close> when \<open>main\<close> returns) and the state at that moment. Lines 8--13, before
  the \<open>try\<close>, log the blob's name and length and read its content; nothing later
  depends on them.
\<close>

definition main ::
  "(string \<rightharpoonup> string) \<Rightarrow> (call \<Rightarrow> outcome) \<Rightarrow> input_stream \<Rightarrow> database \<Rightarrow> exn option \<times> state" where
  "main environ plan inputBlob db =
     (case try_body environ plan inputBlob (initial db) of
        (r, s) \<Rightarrow> (map_option except_clauses r, finally_block plan s))"

section \<open>Reference definitions\<close>

text \<open>
  The extension as the specification words it: the lowercased substring of the name
  from its final \<open>.\<close> on, and the empty string when the name has no dot.
\<close>

definition spec_extension :: "string \<Rightarrow> string" where
  "spec_extension name =
     (if CHR ''.'' \<in> set name then lower (drop (nat (rfind name (CHR ''.''))) name) else [])"

text \<open>
  When the final dot of a name starts an extension: in the part of the name after its
  last \<open>/\<close>, a dot is left once the leading dots are dropped, that is, some character
  other than \<open>.\<close> comes before a dot there.
\<close>

definition ext_counts :: "string \<Rightarrow> bool" where
  "ext_counts name =
     (let base = drop (nat (rfind name (CHR ''/'') + 1)) name
      in CHR ''.'' \<in> set (dropWhile (\<lambda>c. c = CHR ''.'') base))"

text \<open>The calls of the \<open>try\<close> body, in the order \<open>main\<close> makes them.\<close>

definition body_calls :: "call list" where
  "body_calls = [Connect, Cursor, ExecCreate, CommitCreate, ExecInsert, CommitInsert,
                 ExecCount, FetchOne, CloseCur, CloseCn]"

text \<open>The exception a call raises under an outcome, and the first one of a plan.\<close>

fun raised :: "call \<Rightarrow> outcome \<Rightarrow> exn option" where
  "raised c Ok = None"
| "raised c (RaisesDbError sqlstate msg) = Some (PyodbcError c sqlstate msg)"
| "raised c RaisesOther = Some (OtherException c)"

definition first_fault :: "(call \<Rightarrow> outcome) \<Rightarrow> exn option" where
  "first_fault plan =
     (case find (\<lambda>c. plan c \<noteq> Ok) body_calls of
        None \<Rightarrow> None
      | Some c \<Rightarrow> raised c (plan c))"

text \<open>No handle is left open: each was never acquired, or it was closed.\<close>

definition released :: "state \<Rightarrow> bool" where
  "released s = (cn s \<noteq> Open \<and> cur s \<noteq> Open)"

section \<open>Example inputs\<close>

definition example_environ :: "string \<rightharpoonup> string" where
  "example_environ = [''SQLConnectionString'' \<mapsto> ''Driver=ODBC;Server=audit'']"

definition invoice_blob :: input_stream where
  "invoice_blob =
     \<lparr>blob_name = ''invoice-2024.edi'', blob_length = 4096, blob_content = ''ISA''\<rparr>"

definition orders_blob :: input_stream where
  "orders_blob = \<lparr>blob_name = ''orders.xml'', blob_length = 10, blob_content = []\<rparr>"

definition empty_store :: database where
  "empty_store = \<lparr>tables = [], getdate = 0\<rparr>"

text \<open>
  Every call of the body returns, and the second \<open>cur.close()\<close>, on the cursor that
  line 71 closed, raises.
\<close>

definition double_close_plan :: "call \<Rightarrow> outcome" where
  "double_close_plan =
     (\<lambda>c. Ok)(FinCloseCur := RaisesDbError ''HY000'' ''Attempt to use a closed cursor.'')"

text \<open>The insert raises; every other call returns.\<close>

definition insert_fault_plan :: "call \<Rightarrow> outcome" where
  "insert_fault_plan =
     (\<lambda>c. Ok)(ExecInsert := RaisesDbError ''08S01'' ''Communication link failure'')"

text \<open>The insert raises, and so does \<open>cur.close()\<close> in the \<open>finally\<close> block.\<close>

definition lost_link_plan :: "call \<Rightarrow> outcome" where
  "lost_link_plan =
     (\<lambda>c. Ok)(ExecInsert := RaisesDbError ''08S01'' ''Communication link failure'',
               FinCloseCur := RaisesDbError ''08S01'' ''Communication link failure'')"

text \<open>Every call returns but \<open>cn.close()\<close> of line 72.\<close>

definition close_fault_plan :: "call \<Rightarrow> outcome" where
  "close_fault_plan =
     (\<lambda>c. Ok)(CloseCn := RaisesDbError ''08S01'' ''Communication link failure'')"

lemmas example_defs = example_environ_def invoice_blob_def orders_blob_def empty_store_def
  double_close_plan_def insert_fault_plan_def lost_link_plan_def close_fault_plan_def

section \<open>\<open>rfind\<close> and \<open>splitext\<close>\<close>

lemma rfind_notin: "c \<notin> set xs \<Longrightarrow> rfind xs c = - 1"
  by (induction xs) auto

lemma rfind_last: "c \<notin> set zs \<Longrightarrow> rfind (ys @ c # zs) c = int (length ys)"
  by (induction ys) (auto simp: rfind_notin Let_def)

lemma rfind_bounds: "- 1 \<le> rfind xs c \<and> rfind xs c < int (length xs)"
  by (induction xs) (auto simp: Let_def)

lemma rfind_neg_iff: "rfind xs c < 0 \<longleftrightarrow> c \<notin> set xs"
proof
  assume neg: "rfind xs c < 0"
  show "c \<notin> set xs"
  proof
    assume "c \<in> set xs"
    then obtain ys zs where "xs = ys @ c # zs" "c \<notin> set zs"
      by (meson split_list_last)
    then have "rfind xs c = int (length ys)" by (simp add: rfind_last)
    with neg show False by simp
  qed
next
  assume "c \<notin> set xs"
  then show "rfind xs c < 0" by (simp add: rfind_notin)
qed

lemma rfind_append_in: "c \<in> set zs \<Longrightarrow> rfind (ys @ zs) c = int (length ys) + rfind zs c"
proof -
  assume "c \<in> set zs"
  then obtain us vs where z: "zs = us @ c # vs" "c \<notin> set vs" by (meson split_list_last)
  have "rfind ((ys @ us) @ c # vs) c = int (length (ys @ us))" using z(2) by (rule rfind_last)
  moreover have "rfind zs c = int (length us)" using z by (simp add: rfind_last)
  ultimately show ?thesis using z by simp
qed

lemma rfind_append_notin: "c \<notin> set zs \<Longrightarrow> rfind (ys @ zs) c = rfind ys c"
proof (cases "c \<in> set ys")
  case False
  assume "c \<notin> set zs"
  with False show ?thesis by (simp add: rfind_notin)
next
  case True
  assume nz: "c \<notin> set zs"
  from True obtain us vs where y: "ys = us @ c # vs" "c \<notin> set vs" by (meson split_list_last)
  have "rfind (us @ c # (vs @ zs)) c = int (length us)" using y(2) nz by (intro rfind_last) simp
  then show ?thesis using y by (simp add: rfind_last)
qed

lemma rfind_map: "(\<And>x. f x = c \<longleftrightarrow> x = c) \<Longrightarrow> rfind (map f xs) c = rfind xs c"
  by (induction xs) (simp_all add: Let_def)

text \<open>The loop of \<open>splitext\<close> looks for a character other than \<open>.\<close> before the dot.\<close>

lemma skip_leading_dots_eq:
  "dotIndex \<le> length p \<Longrightarrow>
   skip_leading_dots p i dotIndex =
     (if \<forall>c \<in> set (take (dotIndex - i) (drop i p)). c = CHR ''.''
      then (p, []) else (take dotIndex p, drop dotIndex p))"
proof (induction p i dotIndex rule: skip_leading_dots.induct)
  case (1 p i d)
  show ?case
  proof (cases "i < d")
    case False
    then show ?thesis by (simp add: skip_leading_dots.simps)
  next
    case True
    then have "i < length p" using 1(2) by simp
    then obtain x rest where dr: "drop i p = x # rest"
      by (metis Cons_nth_drop_Suc)
    then have dr': "drop (Suc i) p = rest"
      by (metis drop_Suc list.sel(3) tl_drop)
    from True obtain k where k: "d - i = Suc k" "d - Suc i = k"
      by (metis Suc_diff_Suc)
    show ?thesis
    proof (cases "x = CHR ''.''")
      case False
      then show ?thesis using True dr k by (subst skip_leading_dots.simps) auto
    next
      case xd: True
      have "skip_leading_dots p i d = skip_leading_dots p (i + 1) d"
        using True dr xd by (subst skip_leading_dots.simps) simp
      also have "\<dots> = (if \<forall>c \<in> set (take (d - (i + 1)) (drop (i + 1) p)). c = CHR ''.''
           then (p, []) else (take d p, drop d p))"
        using 1(1)[OF True _ 1(2)] dr xd by simp
      finally show ?thesis using dr dr' k xd by simp
    qed
  qed
qed

lemma splitext_no_dot: "CHR ''.'' \<notin> set p \<Longrightarrow> splitext p = (p, [])"
  using rfind_bounds[of p "CHR ''/''"] by (simp add: splitext_def rfind_notin Let_def)

lemma splitext_last_dot:
  assumes "CHR ''.'' \<notin> set zs"
  shows "splitext (ys @ CHR ''.'' # zs) =
           (if CHR ''/'' \<notin> set zs \<and>
               (\<exists>c \<in> set (drop (nat (rfind ys (CHR ''/'') + 1)) ys). c \<noteq> CHR ''.'')
            then (ys, CHR ''.'' # zs) else (ys @ CHR ''.'' # zs, []))"
proof -
  let ?p = "ys @ CHR ''.'' # zs"
  have dot: "rfind ?p (CHR ''.'') = int (length ys)"
    using assms by (rule rfind_last)
  show ?thesis
  proof (cases "CHR ''/'' \<in> set zs")
    case True
    have "rfind ((ys @ ''.'') @ zs) (CHR ''/'') = int (length (ys @ ''.'')) + rfind zs (CHR ''/'')"
      using True by (rule rfind_append_in)
    moreover have "0 \<le> rfind zs (CHR ''/'')"
      using True rfind_neg_iff[of zs "CHR ''/''"] by simp
    ultimately have "int (length ys) < rfind ?p (CHR ''/'')" by simp
    then show ?thesis using True dot by (simp add: splitext_def Let_def)
  next
    case False
    let ?i = "nat (rfind ys (CHR ''/'') + 1)"
    have sep: "rfind ?p (CHR ''/'') = rfind ys (CHR ''/'')"
      using False by (intro rfind_append_notin) simp
    have b: "rfind ys (CHR ''/'') < int (length ys)" "- 1 \<le> rfind ys (CHR ''/'')"
      using rfind_bounds[of ys "CHR ''/''"] by simp_all
    then have i: "?i \<le> length ys" by linarith
    have "splitext ?p = skip_leading_dots ?p ?i (length ys)"
      using dot sep b by (simp add: splitext_def Let_def)
    also have "\<dots> = (if \<forall>c \<in> set (take (length ys - ?i) (drop ?i ?p)). c = CHR ''.''
                     then (?p, []) else (take (length ys) ?p, drop (length ys) ?p))"
      by (rule skip_leading_dots_eq) simp
    also have "take (length ys - ?i) (drop ?i ?p) = drop ?i ys"
      using i by simp
    finally show ?thesis using False by auto
  qed
qed

lemma stem_after_sep:
  assumes "CHR ''/'' \<notin> set stem" "c \<in> set stem" "c \<noteq> CHR ''.''"
  shows "\<exists>c \<in> set (drop (nat (rfind (dir @ stem) (CHR ''/'') + 1)) (dir @ stem)). c \<noteq> CHR ''.''"
proof -
  let ?i = "nat (rfind (dir @ stem) (CHR ''/'') + 1)"
  have "rfind (dir @ stem) (CHR ''/'') = rfind dir (CHR ''/'')"
    using assms(1) by (rule rfind_append_notin)
  then have "?i \<le> length dir" using rfind_bounds[of dir "CHR ''/''"] by linarith
  then have "drop ?i (dir @ stem) = drop ?i dir @ stem" by simp
  then have "c \<in> set (drop ?i (dir @ stem))" using assms(2) by simp
  then show ?thesis using assms(3) by blast
qed

lemma splitext_stem:
  assumes "CHR ''/'' \<notin> set stem" "CHR ''/'' \<notin> set x" "CHR ''.'' \<notin> set x"
    and "c \<in> set stem" "c \<noteq> CHR ''.''"
  shows "splitext (dir @ stem @ CHR ''.'' # x) = (dir @ stem, CHR ''.'' # x)"
  using splitext_last_dot[OF assms(3), of "dir @ stem"] assms(2)
    stem_after_sep[OF assms(1,4,5), of dir]
  by simp

lemma ext_counts_no_dot: "CHR ''.'' \<notin> set p \<Longrightarrow> \<not> ext_counts p"
  by (auto simp: ext_counts_def Let_def dest!: set_dropWhileD in_set_dropD)

lemma ext_counts_last_dot:
  assumes "CHR ''.'' \<notin> set zs"
  shows "ext_counts (ys @ CHR ''.'' # zs) \<longleftrightarrow>
           CHR ''/'' \<notin> set zs \<and>
           (\<exists>c \<in> set (drop (nat (rfind ys (CHR ''/'') + 1)) ys). c \<noteq> CHR ''.'')"
proof (cases "CHR ''/'' \<in> set zs")
  case True
  have r: "rfind ((ys @ ''.'') @ zs) (CHR ''/'') = int (length (ys @ ''.'')) + rfind zs (CHR ''/'')"
    using True by (rule rfind_append_in)
  have nn: "0 \<le> rfind zs (CHR ''/'')"
    using True rfind_neg_iff[of zs "CHR ''/''"] by simp
  have "nat (rfind (ys @ CHR ''.'' # zs) (CHR ''/'') + 1) =
      length (ys @ ''.'') + nat (rfind zs (CHR ''/'') + 1)"
    using r nn by simp
  then have "drop (nat (rfind (ys @ CHR ''.'' # zs) (CHR ''/'') + 1)) (ys @ CHR ''.'' # zs)
      = drop (nat (rfind zs (CHR ''/'') + 1)) zs"
    by simp
  then show ?thesis using True assms
    by (auto simp: ext_counts_def Let_def dest!: set_dropWhileD in_set_dropD)
next
  case False
  let ?i = "nat (rfind ys (CHR ''/'') + 1)"
  let ?P = "\<lambda>c. c = CHR ''.''"
  have sep: "rfind (ys @ CHR ''.'' # zs) (CHR ''/'') = rfind ys (CHR ''/'')"
    using False by (intro rfind_append_notin) simp
  have i: "?i \<le> length ys" using rfind_bounds[of ys "CHR ''/''"] by linarith
  then have base: "drop ?i (ys @ CHR ''.'' # zs) = drop ?i ys @ CHR ''.'' # zs" by simp
  show ?thesis
  proof (cases "\<exists>c \<in> set (drop ?i ys). c \<noteq> CHR ''.''")
    case True
    then obtain c where "c \<in> set (drop ?i ys)" "\<not> ?P c" by blast
    then have "dropWhile ?P (drop ?i ys @ CHR ''.'' # zs) =
        dropWhile ?P (drop ?i ys) @ CHR ''.'' # zs"
      by (rule dropWhile_append1)
    then show ?thesis using True False sep base by (simp add: ext_counts_def Let_def)
  next
    case nd: False
    then have "dropWhile ?P (drop ?i ys @ CHR ''.'' # zs) = dropWhile ?P (CHR ''.'' # zs)"
      by (intro dropWhile_append2) blast
    then have "set (dropWhile ?P (drop ?i ys @ CHR ''.'' # zs)) \<subseteq> set zs"
      by (auto dest: set_dropWhileD)
    then show ?thesis using nd assms sep base by (auto simp: ext_counts_def Let_def)
  qed
qed

lemma file_extension_eq:
  "file_extension name = (if ext_counts name then spec_extension name else [])"
proof (cases "CHR ''.'' \<in> set name")
  case False
  then show ?thesis
    by (simp add: file_extension_def splitext_no_dot ext_counts_no_dot lower_def)
next
  case True
  then obtain ys zs where n: "name = ys @ CHR ''.'' # zs" "CHR ''.'' \<notin> set zs"
    by (meson split_list_last)
  have "rfind name (CHR ''.'') = int (length ys)" using n by (simp add: rfind_last)
  then have "spec_extension name = lower (CHR ''.'' # zs)"
    using n by (simp add: spec_extension_def)
  then show ?thesis
    using n by (simp add: file_extension_def splitext_last_dot ext_counts_last_dot lower_def)
qed

section \<open>Letter case\<close>

lemma lower_char_keeps:
  assumes "(of_char d :: nat) < 65"
  shows "lower_char c = d \<longleftrightarrow> c = d"
proof (cases "65 \<le> (of_char c :: nat) \<and> (of_char c :: nat) \<le> 90")
  case False
  then show ?thesis by (auto simp: lower_char_def Let_def)
next
  case True
  then have "(of_char (lower_char c) :: nat) = of_char c + 32"
    by (simp add: lower_char_def Let_def)
  then have "lower_char c \<noteq> d" "c \<noteq> d" using assms True by auto
  then show ?thesis by simp
qed

lemma lower_char_dot: "lower_char c = CHR ''.'' \<longleftrightarrow> c = CHR ''.''"
  by (rule lower_char_keeps) simp

lemma lower_char_sep: "lower_char c = CHR ''/'' \<longleftrightarrow> c = CHR ''/''"
  by (rule lower_char_keeps) simp

lemma in_set_lower_dot: "CHR ''.'' \<in> set (lower xs) \<longleftrightarrow> CHR ''.'' \<in> set xs"
proof -
  have "CHR ''.'' \<in> set (lower xs) \<longleftrightarrow> (\<exists>x \<in> set xs. lower_char x = CHR ''.'')"
    unfolding lower_def set_map image_iff by (rule bex_cong) auto
  then show ?thesis by (simp add: lower_char_dot)
qed

lemma in_set_lower_sep: "CHR ''/'' \<in> set (lower xs) \<longleftrightarrow> CHR ''/'' \<in> set xs"
proof -
  have "CHR ''/'' \<in> set (lower xs) \<longleftrightarrow> (\<exists>x \<in> set xs. lower_char x = CHR ''/'')"
    unfolding lower_def set_map image_iff by (rule bex_cong) auto
  then show ?thesis by (simp add: lower_char_sep)
qed

text \<open>\<open>splitext\<close> cuts a name and its lowercased form at the same place.\<close>

lemma splitext_lower:
  "splitext (lower p) = (lower (fst (splitext p)), lower (snd (splitext p)))"
proof (cases "CHR ''.'' \<in> set p")
  case False
  then show ?thesis by (simp add: splitext_no_dot in_set_lower_dot) (simp add: lower_def)
next
  case True
  then obtain ys zs where p: "p = ys @ CHR ''.'' # zs" "CHR ''.'' \<notin> set zs"
    by (meson split_list_last)
  have lp: "lower p = lower ys @ CHR ''.'' # lower zs"
    using p by (simp add: lower_def lower_char_dot)
  have nz: "CHR ''.'' \<notin> set (lower zs)" using p(2) by (simp add: in_set_lower_dot)
  have r: "rfind (lower ys) (CHR ''/'') = rfind ys (CHR ''/'')"
    unfolding lower_def by (rule rfind_map) (rule lower_char_sep)
  have d: "(\<exists>c \<in> set (drop n (lower ys)). c \<noteq> CHR ''.'') \<longleftrightarrow>
           (\<exists>c \<in> set (drop n ys). c \<noteq> CHR ''.'')" for n
    by (auto simp: lower_def drop_map lower_char_dot)
  define C where "C \<longleftrightarrow> CHR ''/'' \<notin> set zs \<and>
    (\<exists>c \<in> set (drop (nat (rfind ys (CHR ''/'') + 1)) ys). c \<noteq> CHR ''.'')"
  have L: "splitext (lower p) =
      (if C then (lower ys, CHR ''.'' # lower zs) else (lower p, []))"
    unfolding lp splitext_last_dot[OF nz] r d in_set_lower_sep C_def by simp
  have R: "splitext p = (if C then (ys, CHR ''.'' # zs) else (p, []))"
    unfolding p(1) splitext_last_dot[OF p(2)] C_def by simp
  have "lower (CHR ''.'' # zs) = CHR ''.'' # lower zs" "lower [] = []"
    by (simp_all add: lower_def lower_char_dot)
  then show ?thesis unfolding L R by simp
qed

lemma file_extension_lower: "file_extension name = snd (splitext (lower name))"
  by (simp add: file_extension_def splitext_lower)

lemma classify_lower: "lower a = lower b \<Longrightarrow> classify a = classify b"
  by (simp add: classify_def file_extension_lower)

lemma lower_ext_shape:
  assumes "lower e = CHR ''.'' # t" "CHR ''.'' \<notin> set t" "CHR ''/'' \<notin> set t"
  shows "\<exists>x. e = CHR ''.'' # x \<and> CHR ''.'' \<notin> set x \<and> CHR ''/'' \<notin> set x \<and> lower x = t"
proof -
  from assms(1) obtain c x where e: "e = c # x" "lower_char c = CHR ''.''" "lower x = t"
    by (auto simp: lower_def)
  then have "c = CHR ''.''" by (simp add: lower_char_dot)
  moreover have "CHR ''.'' \<notin> set x" "CHR ''/'' \<notin> set x"
    using assms(2,3) e(3) in_set_lower_dot[of x] in_set_lower_sep[of x] by auto
  ultimately show ?thesis using e by simp
qed

lemma classify_suffix:
  assumes "lower e = CHR ''.'' # t" "CHR ''.'' \<notin> set t" "CHR ''/'' \<notin> set t"
    and "CHR ''/'' \<notin> set stem" "c \<in> set stem" "c \<noteq> CHR ''.''"
  shows "classify (dir @ stem @ e) = content_type_of (CHR ''.'' # t)"
proof -
  from lower_ext_shape[OF assms(1-3)] obtain x where
    x: "e = CHR ''.'' # x" "CHR ''.'' \<notin> set x" "CHR ''/'' \<notin> set x" "lower x = t" by blast
  have "splitext (dir @ stem @ CHR ''.'' # x) = (dir @ stem, CHR ''.'' # x)"
    using assms(4) x(3) x(2) assms(5,6) by (rule splitext_stem)
  then show ?thesis using x assms(1) by (simp add: classify_def file_extension_def)
qed

lemma content_type_of_cases:
  "content_type_of ext = ''text/plain'' \<or> content_type_of ext = ''application/edi'' \<or>
   content_type_of ext = ''application/xml'' \<or> content_type_of ext = ''application/json''"
  unfolding content_type_of_def by meson

lemma classify_range:
  "classify name \<in>
     {''text/plain'', ''application/edi'', ''application/xml'', ''application/json''}"
  using content_type_of_cases[of "file_extension name"] unfolding classify_def
  by blast

lemma content_type_of_rows:
  "content_type_of ''.txt'' = ''text/plain''"
  "content_type_of ''.edi'' = ''application/edi''"
  "content_type_of ''.xml'' = ''application/xml''"
  "content_type_of ''.json'' = ''application/json''"
  by code_simp+

lemma content_type_of_default:
  "ext \<noteq> ''.txt'' \<Longrightarrow> ext \<noteq> ''.edi'' \<Longrightarrow> ext \<noteq> ''.xml'' \<Longrightarrow> ext \<noteq> ''.json'' \<Longrightarrow>
   content_type_of ext = ''text/plain''"
  unfolding content_type_of_def by meson

lemma table_extension_shape:
  assumes "x = ''.txt'' \<or> x = ''.edi'' \<or> x = ''.xml'' \<or> x = ''.json''"
  shows "\<exists>t. x = CHR ''.'' # t \<and> CHR ''.'' \<notin> set t \<and> CHR ''/'' \<notin> set t"
proof -
  have "\<exists>t. ''.txt'' = CHR ''.'' # t \<and> CHR ''.'' \<notin> set t \<and> CHR ''/'' \<notin> set t"
    by (rule exI[of _ "''txt''"]) simp
  moreover have "\<exists>t. ''.edi'' = CHR ''.'' # t \<and> CHR ''.'' \<notin> set t \<and> CHR ''/'' \<notin> set t"
    by (rule exI[of _ "''edi''"]) simp
  moreover have "\<exists>t. ''.xml'' = CHR ''.'' # t \<and> CHR ''.'' \<notin> set t \<and> CHR ''/'' \<notin> set t"
    by (rule exI[of _ "''xml''"]) simp
  moreover have "\<exists>t. ''.json'' = CHR ''.'' # t \<and> CHR ''.'' \<notin> set t \<and> CHR ''/'' \<notin> set t"
    by (rule exI[of _ "''json''"]) simp
  ultimately show ?thesis using assms by metis
qed

lemma classify_examples:
  "classify ''a.txt'' = ''text/plain''" "classify ''a.EDI'' = ''application/edi''"
  "classify ''a.xml'' = ''application/xml''" "classify ''a.json'' = ''application/json''"
  "classify ''a'' = ''text/plain''" "classify ''a.csv'' = ''text/plain''"
  "classify ''invoice-2024.edi'' = ''application/edi''"
  by code_simp+

section \<open>The SQL statements\<close>

lemma create_table_sql_result:
  "create_table_sql db =
     Inr (if table_exists ''BlobAudit'' db then db
          else db\<lparr>tables := tables db @
                  [(''BlobAudit'',
                    \<lparr>columns = BlobAudit_columns, rows = [], next_identity = 1\<rparr>)]\<rparr>)"
  by (simp add: create_table_sql_def create_table_def)

lemma create_table_sql_cases:
  obtains db' where "create_table_sql db = Inr db'" "table_exists ''BlobAudit'' db'"
    "audit_rows db' = audit_rows db" "next_audit_id db' = next_audit_id db"
    "getdate db' = getdate db"
  by (cases "table_exists ''BlobAudit'' db")
     (auto simp: create_table_sql_result table_exists_def audit_rows_def next_audit_id_def
           map_add_def split: option.splits)

lemma insert_sql_result:
  assumes "table_exists ''BlobAudit'' db"
  obtains db' where "insert_sql (n, z, ct, st) db = Inr db'"
    "table_exists ''BlobAudit'' db'"
    "audit_rows db' = audit_rows db @
       [\<lparr>row_Id = next_audit_id db, BlobName = n, BlobSize = z, ProcessedAt = getdate db,
         ContentType = ct, Status = st\<rparr>]"
    "next_audit_id db' = next_audit_id db + 1"
  using assms
  by (auto simp: insert_sql_def table_exists_def audit_rows_def next_audit_id_def update_conv'
           split: option.splits)

lemma select_count_sql_result:
  "table_exists ''BlobAudit'' db \<Longrightarrow> select_count_sql db = Inr (length (audit_rows db))"
  by (auto simp: select_count_sql_def table_exists_def audit_rows_def split: option.splits)

lemma count_tables_absent:
  "\<not> table_exists nm db \<Longrightarrow> count_tables nm db = 0"
  by (auto simp: table_exists_def count_tables_def map_of_eq_None_iff filter_empty_conv)

lemma created_exists:
  "table_exists ''BlobAudit'' (db\<lparr>tables := tables db @
           [(''BlobAudit'', \<lparr>columns = BlobAudit_columns, rows = [], next_identity = 1\<rparr>)]\<rparr>)"
  by (simp add: table_exists_def)

lemma audit_rows_getdate [simp]:
  "audit_rows (db\<lparr>getdate := t\<rparr>) = audit_rows db"
  "next_audit_id (db\<lparr>getdate := t\<rparr>) = next_audit_id db"
  "table_exists nm (db\<lparr>getdate := t\<rparr>) = table_exists nm db"
  by (simp_all add: audit_rows_def next_audit_id_def table_exists_def)

section \<open>Steps and sequences\<close>

lemma except_clauses_id: "except_clauses e = e"
  by (cases e) simp_all

lemma raised_None_iff: "raised c x = None \<longleftrightarrow> x = Ok"
  by (cases x) simp_all

lemma call_store_eq:
  "call_store plan c eff s =
     (if plan c = Ok then eff (s\<lparr>trace := trace s @ [c]\<rparr>)
      else (raised c (plan c), s\<lparr>trace := trace s @ [c]\<rparr>))"
  by (cases "plan c") (simp_all add: call_store_def Let_def)

lemma run_Cons_eq: "run (f # fs) s = (if fst (f s) = None then run fs (snd (f s)) else f s)"
  by (cases "f s") (auto split: option.splits)

lemma run_replicate_Suc:
  "run (replicate (Suc n) f) s =
     (if fst (f s) = None then run (replicate n f) (snd (f s)) else f s)"
  by (simp add: run_Cons_eq del: run.simps(2))

lemmas step_eqs = get_conn_str_def connect_def cursor_def commit_def exec_create_def
  exec_insert_def exec_count_def fetchone_def close_cur_def close_cn_def call_store_eq
  sql_effect_def fin_close_cur_def fin_close_cn_def raised_None_iff

lemma fst_main:
  "fst (main environ plan inputBlob db) = fst (try_body environ plan inputBlob (initial db))"
  by (simp add: main_def case_prod_beta except_clauses_id option.map_ident
        cong: option.map_cong)

lemma snd_main:
  "snd (main environ plan inputBlob db) =
     finally_block plan (snd (try_body environ plan inputBlob (initial db)))"
  by (simp add: main_def case_prod_beta)

lemma body_calls_Ok:
  assumes "\<forall>c \<in> set body_calls. plan c = Ok"
  shows "plan Connect = Ok" "plan Cursor = Ok" "plan ExecCreate = Ok" "plan CommitCreate = Ok"
    "plan ExecInsert = Ok" "plan CommitInsert = Ok" "plan ExecCount = Ok" "plan FetchOne = Ok"
    "plan CloseCur = Ok" "plan CloseCn = Ok"
  using assms by (simp_all add: body_calls_def)

lemma first_fault_None_iff: "first_fault plan = None \<longleftrightarrow> (\<forall>c \<in> set body_calls. plan c = Ok)"
  by (auto simp: first_fault_def find_None_iff raised_None_iff split: option.splits
      dest: find_Some_iff[THEN iffD1])

lemma first_fault_finally:
  "first_fault (plan(FinCloseCur := out_cur, FinCloseCn := out_cn)) = first_fault plan"
  by (simp add: first_fault_def body_calls_def)

section \<open>The \<open>finally\<close> block\<close>

lemma finally_block_releases:
  assumes "plan FinCloseCur = Ok" "plan FinCloseCn = Ok"
  shows "released (finally_block plan s)"
  using assms by (simp add: released_def finally_block_def step_eqs run_Cons_eq del: run.simps(2))

lemma finally_block_keeps:
  "durable (finally_block plan s) = durable s"
  "total_count (finally_block plan s) = total_count s"
  "cn s = Closed \<Longrightarrow> cn (finally_block plan s) = Closed"
  "cur s = Closed \<Longrightarrow> cur (finally_block plan s) = Closed"
  "cn s = Unbound \<Longrightarrow> cn (finally_block plan s) = Unbound"
  "cur s = Unbound \<Longrightarrow> cur (finally_block plan s) = Unbound"
  by (simp_all add: finally_block_def step_eqs run_Cons_eq del: run.simps(2))

lemma finally_block_attempts:
  "cur (finally_block plan s) \<noteq> Unbound \<longrightarrow> FinCloseCur \<in> set (trace (finally_block plan s))"
  "cn (finally_block plan s) \<noteq> Unbound \<and>
   (cur (finally_block plan s) = Unbound \<or> plan FinCloseCur = Ok)
     \<longrightarrow> FinCloseCn \<in> set (trace (finally_block plan s))"
  by (simp_all add: finally_block_def step_eqs run_Cons_eq del: run.simps(2))

section \<open>One invocation\<close>

lemma main_no_conn_str:
  assumes "environ ''SQLConnectionString'' = None \<or> environ ''SQLConnectionString'' = Some []"
  shows "main environ plan inputBlob db = (Some ValueError, initial db)"
  using assms
  by (auto simp: main_def try_body_def get_conn_str_def finally_block_def fin_close_cur_def
        fin_close_cn_def initial_def)

lemma main_success:
  assumes "environ ''SQLConnectionString'' = Some conn_str" "conn_str \<noteq> []"
    and "\<forall>c \<in> set body_calls. plan c = Ok"
  shows "fst (main environ plan inputBlob db) = None"
    and "audit_rows (durable (snd (main environ plan inputBlob db))) = audit_rows db @
             [\<lparr>row_Id = next_audit_id db, BlobName = blob_name inputBlob,
               BlobSize = blob_length inputBlob, ProcessedAt = getdate db,
               ContentType = classify (blob_name inputBlob), Status = ''Processed''\<rparr>]"
    and "next_audit_id (durable (snd (main environ plan inputBlob db))) = next_audit_id db + 1"
    and "total_count (snd (main environ plan inputBlob db)) = Some (length (audit_rows db) + 1)"
    and "table_exists ''BlobAudit'' (durable (snd (main environ plan inputBlob db)))"
proof -
  obtain db1 where c: "create_table_sql db = Inr db1" "table_exists ''BlobAudit'' db1"
    "audit_rows db1 = audit_rows db" "next_audit_id db1 = next_audit_id db"
    "getdate db1 = getdate db"
    by (rule create_table_sql_cases)
  obtain db2 where i: "insert_sql (blob_name inputBlob, blob_length inputBlob,
        classify (blob_name inputBlob), ''Processed'') db1 = Inr db2"
    "table_exists ''BlobAudit'' db2"
    "audit_rows db2 = audit_rows db1 @
       [\<lparr>row_Id = next_audit_id db1, BlobName = blob_name inputBlob,
         BlobSize = blob_length inputBlob, ProcessedAt = getdate db1,
         ContentType = classify (blob_name inputBlob), Status = ''Processed''\<rparr>]"
    "next_audit_id db2 = next_audit_id db1 + 1"
    by (rule insert_sql_result[OF c(2)])
  note n = select_count_sql_result[OF i(2)]
  note ok = body_calls_Ok[OF assms(3)]
  have t: "try_body environ plan inputBlob (initial db) =
      (None, \<lparr>durable = db2, working = db2, cn = Closed, cur = Closed,
              pending_row = None, total_count = Some (length (audit_rows db2)),
              trace = body_calls\<rparr>)"
    using assms(1,2) ok c(1) i(1) n
    by (simp add: try_body_def initial_def step_eqs body_calls_def)
  show "fst (main environ plan inputBlob db) = None"
    by (simp add: main_def t)
  show "audit_rows (durable (snd (main environ plan inputBlob db))) = audit_rows db @
             [\<lparr>row_Id = next_audit_id db, BlobName = blob_name inputBlob,
               BlobSize = blob_length inputBlob, ProcessedAt = getdate db,
               ContentType = classify (blob_name inputBlob), Status = ''Processed''\<rparr>]"
    by (simp add: main_def t finally_block_keeps i c)
  show "next_audit_id (durable (snd (main environ plan inputBlob db))) = next_audit_id db + 1"
    by (simp add: main_def t finally_block_keeps i c)
  show "total_count (snd (main environ plan inputBlob db)) = Some (length (audit_rows db) + 1)"
    by (simp add: main_def t finally_block_keeps i c)
  show "table_exists ''BlobAudit'' (durable (snd (main environ plan inputBlob db)))"
    by (simp add: main_def t finally_block_keeps i)
qed

text \<open>
  With the connection string there, \<open>main\<close> raises what the first call of the body
  that does not return raises, and returns when they all return: the statements of
  \<open>main\<close> themselves never fail after the schema step.
\<close>

lemma main_raises_first_fault:
  assumes "environ ''SQLConnectionString'' = Some conn_str" "conn_str \<noteq> []"
  shows "fst (main environ plan inputBlob db) = first_fault plan"
proof -
  obtain db1 where c: "create_table_sql db = Inr db1" "table_exists ''BlobAudit'' db1"
    by (rule create_table_sql_cases)
  obtain db2 where i: "insert_sql (blob_name inputBlob, blob_length inputBlob,
        classify (blob_name inputBlob), ''Processed'') db1 = Inr db2"
    "table_exists ''BlobAudit'' db2"
    by (rule insert_sql_result[OF c(2)])
  note n = select_count_sql_result[OF i(2)]
  show ?thesis
    unfolding fst_main
    using assms c(1) i(1) n
    by (simp add: try_body_def initial_def step_eqs first_fault_def body_calls_def
          run_Cons_eq del: run.simps(2))
qed

lemma try_body_returns_closed:
  "fst (try_body environ plan inputBlob (initial db)) = None \<longrightarrow>
     cn (snd (try_body environ plan inputBlob (initial db))) = Closed \<and>
     cur (snd (try_body environ plan inputBlob (initial db))) = Closed"
proof (cases "environ ''SQLConnectionString'' = None \<or> environ ''SQLConnectionString'' = Some []")
  case True
  then show ?thesis by (auto simp: try_body_def get_conn_str_def)
next
  case False
  then obtain conn_str where
    e: "environ ''SQLConnectionString'' = Some conn_str" "conn_str \<noteq> []"
    by auto
  obtain db1 where c: "create_table_sql db = Inr db1" "table_exists ''BlobAudit'' db1"
    by (rule create_table_sql_cases)
  obtain db2 where i: "insert_sql (blob_name inputBlob, blob_length inputBlob,
        classify (blob_name inputBlob), ''Processed'') db1 = Inr db2"
    "table_exists ''BlobAudit'' db2"
    by (rule insert_sql_result[OF c(2)])
  note n = select_count_sql_result[OF i(2)]
  show ?thesis
    using e c(1) i(1) n
    by (simp add: try_body_def initial_def step_eqs run_Cons_eq del: run.simps(2))
qed

section \<open>The schema step and the count\<close>

lemma ensure_creates:
  assumes "\<not> table_exists ''BlobAudit'' (working s)"
    and "plan ExecCreate = Ok" "plan CommitCreate = Ok"
  shows "fst (ensure plan s) = None"
    and "working (snd (ensure plan s)) = (working s)\<lparr>tables := tables (working s) @
           [(''BlobAudit'', \<lparr>columns = BlobAudit_columns, rows = [], next_identity = 1\<rparr>)]\<rparr>"
    and "durable (snd (ensure plan s)) = working (snd (ensure plan s))"
  using assms by (simp_all add: ensure_def step_eqs create_table_sql_result)

lemma ensure_keeps:
  assumes "table_exists ''BlobAudit'' (working s)"
    and "plan ExecCreate = Ok" "plan CommitCreate = Ok"
  shows "fst (ensure plan s) = None"
    and "working (snd (ensure plan s)) = working s"
    and "durable (snd (ensure plan s)) = working s"
  using assms by (simp_all add: ensure_def step_eqs create_table_sql_result)

lemma ensure_again:
  assumes "table_exists ''BlobAudit'' (working s)" "durable s = working s"
    and "plan ExecCreate = Ok" "plan CommitCreate = Ok"
  shows "fst (run (replicate n (ensure plan)) s) = None \<and>
         working (snd (run (replicate n (ensure plan)) s)) = working s \<and>
         durable (snd (run (replicate n (ensure plan)) s)) = working s"
  using assms(1,2)
proof (induction n arbitrary: s)
  case 0
  then show ?case by simp
next
  case (Suc n)
  have k: "fst (ensure plan s) = None" "working (snd (ensure plan s)) = working s"
    "durable (snd (ensure plan s)) = working s"
    using ensure_keeps[OF Suc.prems(1) assms(3,4)] by simp_all
  have "table_exists ''BlobAudit'' (working (snd (ensure plan s)))"
    "durable (snd (ensure plan s)) = working (snd (ensure plan s))"
    using k Suc.prems by simp_all
  from Suc.IH[OF this] show ?case
    unfolding run_replicate_Suc using k by simp
qed

lemma count_all_frame:
  "durable (snd (count_all plan s)) = durable s \<and> working (snd (count_all plan s)) = working s"
  by (simp add: count_all_def step_eqs run_Cons_eq split: sum.splits option.splits prod.splits
      del: run.simps(2))

lemma count_all_result:
  assumes "table_exists ''BlobAudit'' (working s)" "plan ExecCount = Ok" "plan FetchOne = Ok"
  shows "fst (count_all plan s) = None \<and>
         total_count (snd (count_all plan s)) = Some (length (audit_rows (working s)))"
  using assms select_count_sql_result[OF assms(1)]
  by (simp add: count_all_def step_eqs)

section \<open>Properties of the handler\<close>

text \<open>
  C1. For every blob event handled with the connection string configured and a store
  whose calls of the body all return, \<open>main\<close> returns and the \<open>BlobAudit\<close> table holds
  exactly one row more than before: its \<open>BlobName\<close> is the event's name, its \<open>BlobSize\<close>
  the event's length, its \<open>ContentType\<close> the content type \<open>classify\<close> gives the name,
  and its \<open>Status\<close> is \<open>Processed\<close>. For the event named \<open>invoice-2024.edi\<close> the
  content type of the row is \<open>application/edi\<close>. What the closes of the \<open>finally\<close>
  block do is left open.
\<close>

theorem handle_inserts_one_record:
  assumes "environ ''SQLConnectionString'' = Some conn_str" "conn_str \<noteq> []"
    and "\<forall>c \<in> set body_calls. plan c = Ok"
  shows "fst (main environ plan inputBlob db) = None \<and>
         audit_rows (durable (snd (main environ plan inputBlob db))) = audit_rows db @
           [\<lparr>row_Id = next_audit_id db, BlobName = blob_name inputBlob,
             BlobSize = blob_length inputBlob, ProcessedAt = getdate db,
             ContentType = classify (blob_name inputBlob), Status = ''Processed''\<rparr>] \<and>
         (blob_name inputBlob = ''invoice-2024.edi'' \<longrightarrow>
            ContentType (last (audit_rows (durable (snd (main environ plan inputBlob db))))) =
              ''application/edi'')"
  using main_success(1,2)[of environ conn_str plan inputBlob db, OF assms]
  by (simp add: classify_examples)

theorem handle_inserts_one_record_witness:
  "fst (main example_environ double_close_plan invoice_blob empty_store) = None \<and>
   audit_rows (durable (snd (main example_environ double_close_plan invoice_blob empty_store))) =
     [\<lparr>row_Id = 1, BlobName = ''invoice-2024.edi'', BlobSize = 4096, ProcessedAt = 0,
       ContentType = ''application/edi'', Status = ''Processed''\<rparr>]"
  using handle_inserts_one_record[where environ = example_environ
      and conn_str = "''Driver=ODBC;Server=audit''" and plan = double_close_plan
      and inputBlob = invoice_blob and db = empty_store]
  by (simp add: example_defs body_calls_def audit_rows_def next_audit_id_def classify_examples)

text \<open>
  C2. When the environment has no \<open>SQLConnectionString\<close>, \<open>main\<close> raises the
  \<open>ValueError\<close> of line 19 whatever the store would do, and it has made no call to
  the store: no connection was attempted, \<open>cn\<close> and \<open>cur\<close> are unbound, and the
  database is as it was.
\<close>

theorem missing_config_no_store_call:
  assumes "environ ''SQLConnectionString'' = None"
  shows "fst (main environ plan inputBlob db) = Some ValueError \<and>
         trace (snd (main environ plan inputBlob db)) = [] \<and>
         cn (snd (main environ plan inputBlob db)) = Unbound \<and>
         cur (snd (main environ plan inputBlob db)) = Unbound \<and>
         durable (snd (main environ plan inputBlob db)) = db"
  using assms by (simp add: main_no_conn_str initial_def)

theorem missing_config_no_store_call_witness:
  "fst (main Map.empty double_close_plan invoice_blob empty_store) = Some ValueError \<and>
   trace (snd (main Map.empty double_close_plan invoice_blob empty_store)) = []"
  using missing_config_no_store_call[where environ = Map.empty and plan = double_close_plan
      and inputBlob = invoice_blob and db = empty_store]
  by simp

text \<open>
  C3, as stated: every name that ends in \<open>.edi\<close> has the content type
  \<open>application/edi\<close>. It fails for a name whose last component is the extension alone:
  \<open>splitext\<close> takes the leading dot of a component as part of the file name, so the
  blob \<open>inbound/.edi\<close> has no extension and gets the default.
\<close>

theorem classify_dotfile_counterexample:
  "suffix ''.edi'' ''inbound/.edi'' \<and> classify ''inbound/.edi'' = ''text/plain''"
proof -
  have "''inbound/.edi'' = ''inbound/'' @ ''.edi''" by simp
  then have "suffix ''.edi'' ''inbound/.edi''" unfolding suffix_def by blast
  moreover have "classify ''inbound/.edi'' = ''text/plain''" by code_simp
  ultimately show ?thesis by simp
qed

text \<open>
  C3, amended. \<open>classify\<close> is a function of the name alone and gives one of the four
  content types for every name; names that differ only in the case of their letters
  have the same content type; the content type is the lookup table applied to the
  lowercased extension that \<open>splitext\<close> gives: \<open>.txt\<close> gives \<open>text/plain\<close>, \<open>.edi\<close>
  \<open>application/edi\<close>, \<open>.xml\<close> \<open>application/xml\<close>, \<open>.json\<close> \<open>application/json\<close>, and
  anything else, the empty extension too, \<open>text/plain\<close>. A name that ends in one of the
  four extensions, in any case, has that content type when in its last component a
  character other than \<open>.\<close> comes before the extension. The six examples hold.
\<close>

theorem classify_table:
  "classify name \<in> {''text/plain'', ''application/edi'', ''application/xml'', ''application/json''} \<and>
   (lower a = lower b \<longrightarrow> classify a = classify b) \<and>
   classify name = content_type_of (lower (snd (splitext name))) \<and>
   content_type_of ''.txt'' = ''text/plain'' \<and>
   content_type_of ''.edi'' = ''application/edi'' \<and>
   content_type_of ''.xml'' = ''application/xml'' \<and>
   content_type_of ''.json'' = ''application/json'' \<and>
   (ext \<notin> {''.txt'', ''.edi'', ''.xml'', ''.json''} \<longrightarrow> content_type_of ext = ''text/plain'') \<and>
   (lower e \<in> {''.txt'', ''.edi'', ''.xml'', ''.json''} \<and>
    CHR ''/'' \<notin> set stem \<and> c \<in> set stem \<and> c \<noteq> CHR ''.''
      \<longrightarrow> classify (dir @ stem @ e) = content_type_of (lower e)) \<and>
   classify ''a.txt'' = ''text/plain'' \<and> classify ''a.EDI'' = ''application/edi'' \<and>
   classify ''a.xml'' = ''application/xml'' \<and> classify ''a.json'' = ''application/json'' \<and>
   classify ''a'' = ''text/plain'' \<and> classify ''a.csv'' = ''text/plain''"
proof -
  have "classify name \<in>
      {''text/plain'', ''application/edi'', ''application/xml'', ''application/json''}"
    by (rule classify_range)
  moreover have "lower a = lower b \<longrightarrow> classify a = classify b"
    using classify_lower by blast
  moreover have "classify name = content_type_of (lower (snd (splitext name)))"
    unfolding classify_def file_extension_def by (rule refl)
  moreover note content_type_of_rows
  moreover have "ext \<notin> {''.txt'', ''.edi'', ''.xml'', ''.json''} \<longrightarrow>
      content_type_of ext = ''text/plain''"
    using content_type_of_default[of ext] by blast
  moreover have "lower e \<in> {''.txt'', ''.edi'', ''.xml'', ''.json''} \<and>
      CHR ''/'' \<notin> set stem \<and> c \<in> set stem \<and> c \<noteq> CHR ''.''
        \<longrightarrow> classify (dir @ stem @ e) = content_type_of (lower e)"
  proof
    assume h: "lower e \<in> {''.txt'', ''.edi'', ''.xml'', ''.json''} \<and>
      CHR ''/'' \<notin> set stem \<and> c \<in> set stem \<and> c \<noteq> CHR ''.''"
    then have "lower e = ''.txt'' \<or> lower e = ''.edi'' \<or> lower e = ''.xml'' \<or> lower e = ''.json''"
      by blast
    from table_extension_shape[OF this] obtain t where
      t: "lower e = CHR ''.'' # t" "CHR ''.'' \<notin> set t" "CHR ''/'' \<notin> set t"
      by blast
    from h have s: "CHR ''/'' \<notin> set stem" "c \<in> set stem" "c \<noteq> CHR ''.''" by blast+
    show "classify (dir @ stem @ e) = content_type_of (lower e)"
      unfolding t(1) using t s by (rule classify_suffix)
  qed
  moreover note classify_examples(1-6)
  ultimately show ?thesis by (intro conjI)
qed

theorem classify_table_witness:
  "classify ''Orders.EDI'' = classify ''orders.edi'' \<and>
   classify (''inbound/'' @ ''orders'' @ ''.EDI'') = ''application/edi''"
proof -
  have l: "lower ''Orders.EDI'' = lower ''orders.edi''" "lower ''.EDI'' = ''.edi''"
    by code_simp+
  note t = classify_table[where a = "''Orders.EDI''" and b = "''orders.edi''"
      and e = "''.EDI''" and stem = "''orders''" and c = "CHR ''o''" and dir = "''inbound/''"]
  have "classify ''Orders.EDI'' = classify ''orders.edi''"
    using t l(1) by blast
  moreover have "classify (''inbound/'' @ ''orders'' @ ''.EDI'') = content_type_of (lower ''.EDI'')"
  proof -
    have "lower ''.EDI'' \<in> {''.txt'', ''.edi'', ''.xml'', ''.json''}"
      unfolding l(2) by blast
    moreover have "CHR ''/'' \<notin> set ''orders'' \<and> CHR ''o'' \<in> set ''orders'' \<and> CHR ''o'' \<noteq> CHR ''.''"
      by simp
    ultimately show ?thesis using t by blast
  qed
  ultimately show ?thesis unfolding l(2) content_type_of_rows by (rule conjI)
qed

text \<open>
  C4, as stated: the extension \<open>classify\<close> uses is the lowercased substring of the name
  from its final dot on, and the content type is the table applied to it. For the blob
  \<open>inbox/.xml\<close> that substring is \<open>.xml\<close>, but \<open>splitext\<close> gives no extension, and the
  content type is the default, not \<open>application/xml\<close>.
\<close>

theorem extension_dotfile_counterexample:
  "file_extension ''inbox/.xml'' \<noteq> spec_extension ''inbox/.xml'' \<and>
   classify ''inbox/.xml'' \<noteq> content_type_of (spec_extension ''inbox/.xml'')"
proof -
  have "file_extension ''inbox/.xml'' = []" by code_simp
  moreover have "spec_extension ''inbox/.xml'' = ''.xml''" by code_simp
  moreover have "classify ''inbox/.xml'' = ''text/plain''" by code_simp
  ultimately show ?thesis by (simp add: content_type_of_def)
qed

text \<open>
  C4, amended. The extension \<open>classify\<close> uses is the lowercased substring of the name
  from its final dot on when that dot lies in the last \<open>/\<close>-separated component of the
  name and a character other than \<open>.\<close> comes before it in that component; otherwise,
  also when the name has no dot, it is the empty string. The content type is the lookup
  table applied to that extension.
\<close>

theorem file_extension_splitext:
  "file_extension name = (if ext_counts name then spec_extension name else []) \<and>
   (CHR ''.'' \<notin> set name \<longrightarrow> file_extension name = []) \<and>
   (CHR ''/'' \<notin> set stem \<and> CHR ''/'' \<notin> set x \<and> CHR ''.'' \<notin> set x \<and>
    c \<in> set stem \<and> c \<noteq> CHR ''.''
      \<longrightarrow> ext_counts (dir @ stem @ CHR ''.'' # x) \<and>
          file_extension (dir @ stem @ CHR ''.'' # x) = lower (CHR ''.'' # x)) \<and>
   classify name = content_type_of (file_extension name)"
proof -
  have none: "CHR ''.'' \<notin> set name \<longrightarrow> file_extension name = []"
    by (simp add: file_extension_eq ext_counts_no_dot)
  have stem: "ext_counts (dir @ stem @ CHR ''.'' # x) \<and>
      file_extension (dir @ stem @ CHR ''.'' # x) = lower (CHR ''.'' # x)"
    if "CHR ''/'' \<notin> set stem" "CHR ''/'' \<notin> set x" "CHR ''.'' \<notin> set x"
      "c \<in> set stem" "c \<noteq> CHR ''.''"
  proof -
    have "ext_counts ((dir @ stem) @ CHR ''.'' # x)"
      using ext_counts_last_dot[OF that(3), of "dir @ stem"] that(2)
        stem_after_sep[OF that(1,4,5), of dir]
      by simp
    moreover have "file_extension (dir @ stem @ CHR ''.'' # x) = lower (CHR ''.'' # x)"
      using splitext_stem[OF that, of dir] by (simp add: file_extension_def)
    ultimately show ?thesis by simp
  qed
  show ?thesis
    using none stem file_extension_eq[of name] by (simp add: classify_def)
qed

theorem file_extension_splitext_witness:
  "file_extension ''readme'' = [] \<and>
   file_extension (''inbox/'' @ ''a'' @ CHR ''.'' # ''EDI'') = ''.edi''"
proof -
  have l: "lower (CHR ''.'' # ''EDI'') = ''.edi''" by code_simp
  note t = file_extension_splitext[where name = "''readme''" and dir = "''inbox/''"
      and stem = "''a''" and x = "''EDI''" and c = "CHR ''a''"]
  have h: "CHR ''.'' \<notin> set ''readme''"
    "CHR ''/'' \<notin> set ''a'' \<and> CHR ''/'' \<notin> set ''EDI'' \<and> CHR ''.'' \<notin> set ''EDI'' \<and>
     CHR ''a'' \<in> set ''a'' \<and> CHR ''a'' \<noteq> CHR ''.''"
    by simp_all
  have "file_extension ''readme'' = []" using t h(1) by blast
  moreover have "file_extension (''inbox/'' @ ''a'' @ CHR ''.'' # ''EDI'') = lower (CHR ''.'' # ''EDI'')"
    using t h(2) by blast
  ultimately show ?thesis unfolding l by simp
qed

text \<open>
  C5. The schema step is idempotent. From a connection that sees no \<open>BlobAudit\<close>
  table, and with a store that lets \<open>execute\<close> and \<open>commit\<close> through, any number
  \<open>N \<ge> 1\<close> of schema steps in a row raises nothing and leaves exactly one \<open>BlobAudit\<close>
  table, empty and with the declared columns; the database after \<open>N\<close> steps is the
  database after the first, so the later steps change nothing. The statement itself
  never fails on any database: it creates the table only where there is none.
\<close>

theorem ensure_idempotent:
  assumes "\<not> table_exists ''BlobAudit'' (working s)"
    and "plan ExecCreate = Ok" "plan CommitCreate = Ok" "0 < N"
  shows "fst (run (replicate N (ensure plan)) s) = None \<and>
         count_tables ''BlobAudit'' (durable (snd (run (replicate N (ensure plan)) s))) = 1 \<and>
         map_of (tables (durable (snd (run (replicate N (ensure plan)) s)))) ''BlobAudit'' =
           Some \<lparr>columns = BlobAudit_columns, rows = [], next_identity = 1\<rparr> \<and>
         durable (snd (run (replicate N (ensure plan)) s)) = durable (snd (ensure plan s)) \<and>
         working (snd (run (replicate N (ensure plan)) s)) = working (snd (ensure plan s)) \<and>
         (\<exists>db'. create_table_sql db = Inr db')"
proof -
  from assms(4) obtain n where N: "N = Suc n" by (cases N) auto
  let ?s1 = "snd (ensure plan s)"
  let ?W = "(working s)\<lparr>tables := tables (working s) @
           [(''BlobAudit'', \<lparr>columns = BlobAudit_columns, rows = [], next_identity = 1\<rparr>)]\<rparr>"
  note c = ensure_creates[OF assms(1-3)]
  have e: "table_exists ''BlobAudit'' (working ?s1)" "durable ?s1 = working ?s1"
    using c created_exists[of "working s"] by simp_all
  note a = ensure_again[OF e assms(2,3), of n]
  have r: "run (replicate N (ensure plan)) s = run (replicate n (ensure plan)) ?s1"
    unfolding N run_replicate_Suc using c(1) by simp
  have cnt: "count_tables ''BlobAudit'' ?W = 1"
    using count_tables_absent[OF assms(1)] by (simp add: count_tables_def)
  have m: "map_of (tables ?W) ''BlobAudit'' =
      Some \<lparr>columns = BlobAudit_columns, rows = [], next_identity = 1\<rparr>"
    using assms(1) by (simp add: table_exists_def map_add_def)
  have "\<exists>db'. create_table_sql db = Inr db'"
    by (simp add: create_table_sql_result)
  then show ?thesis unfolding r using a c cnt m by simp
qed

theorem ensure_idempotent_witness:
  "fst (run (replicate 3 (ensure (\<lambda>c. Ok))) (initial empty_store)) = None \<and>
   count_tables ''BlobAudit''
     (durable (snd (run (replicate 3 (ensure (\<lambda>c. Ok))) (initial empty_store)))) = 1"
proof -
  have h: "\<not> table_exists ''BlobAudit'' (working (initial empty_store))"
    "(\<lambda>c. Ok) ExecCreate = Ok" "(\<lambda>c. Ok) CommitCreate = Ok" "0 < (3::nat)"
    by (simp_all add: initial_def empty_store_def table_exists_def)
  from ensure_idempotent[where db = empty_store, OF h] show ?thesis by blast
qed

text \<open>
  C6. Every fault of an invocation is to reach the caller after the resources were
  cleaned up, and a failure of the cleanup is to change nothing in that. \<open>main\<close>
  raises the fault, but not always after the cleanup. When the insert raises and then
  \<open>cur.close()\<close> raises in the \<open>finally\<close> block, the one \<open>try\<close> around both closes
  ends the block there: the error of the insert reaches the caller on a connection
  that was opened and whose \<open>close\<close> was never called, neither on line 72 nor on line
  90, against the comment of the block, \<open>Ensure connections are closed\<close>.
\<close>

theorem fault_reaches_caller_before_cleanup:
  "fst (main example_environ lost_link_plan invoice_blob empty_store) =
     Some (PyodbcError ExecInsert ''08S01'' ''Communication link failure'') \<and>
   Connect \<in> set (trace (snd (main example_environ lost_link_plan invoice_blob empty_store))) \<and>
   CloseCn \<notin> set (trace (snd (main example_environ lost_link_plan invoice_blob empty_store))) \<and>
   FinCloseCn \<notin> set (trace (snd (main example_environ lost_link_plan invoice_blob empty_store)))"
  by (simp add: main_def try_body_def finally_block_def initial_def step_eqs example_defs
      create_table_sql_result table_exists_def)

text \<open>
  The fault itself is never lost. Without a connection string, absent or empty, \<open>main\<close>
  raises the \<open>ValueError\<close>; with it, \<open>main\<close> raises exactly what the first call of the
  \<open>try\<close> body that does not return raises, the closes of lines 71 and 72 included, and
  returns only when every call of the body returned. What the closes of the \<open>finally\<close>
  block do changes nothing in what the caller gets.
\<close>

lemma faults_propagate:
  "(environ ''SQLConnectionString'' = None \<or> environ ''SQLConnectionString'' = Some []
      \<longrightarrow> fst (main environ plan inputBlob db) = Some ValueError) \<and>
   (environ ''SQLConnectionString'' = Some conn_str \<and> conn_str \<noteq> []
      \<longrightarrow> fst (main environ plan inputBlob db) = first_fault plan \<and>
          (fst (main environ plan inputBlob db) = None \<longleftrightarrow>
             (\<forall>c \<in> set body_calls. plan c = Ok))) \<and>
   fst (main environ (plan(FinCloseCur := out_cur, FinCloseCn := out_cn)) inputBlob db) =
     fst (main environ plan inputBlob db)"
proof -
  have indep:
    "fst (main environ (plan(FinCloseCur := out_cur, FinCloseCn := out_cn)) inputBlob db) =
     fst (main environ plan inputBlob db)"
  proof (cases "environ ''SQLConnectionString'' = None \<or>
      environ ''SQLConnectionString'' = Some []")
    case True
    then show ?thesis by (simp add: main_no_conn_str)
  next
    case False
    then obtain cs where "environ ''SQLConnectionString'' = Some cs" "cs \<noteq> []" by auto
    then show ?thesis by (simp add: main_raises_first_fault first_fault_finally)
  qed
  show ?thesis
    using indep
    by (auto simp: main_no_conn_str main_raises_first_fault first_fault_None_iff)
qed

text \<open>
  C7. On every exit path the connection and the cursor acquired are to have been
  released when \<open>main\<close> ends. \<open>main\<close> misses it on the path of a fault during the
  insert on which \<open>cur.close()\<close> raises in the \<open>finally\<close> block: lines 86 to 92 put
  both closes into one \<open>try\<close>, so the \<open>except: pass\<close> that drops the error of
  \<open>cur.close()\<close> also skips \<open>cn.close()\<close>. The calls made end with that
  \<open>cur.close()\<close>, and the fault reaches the caller with the connection open.
\<close>

theorem cleanup_skips_connection:
  "trace (snd (main example_environ lost_link_plan invoice_blob empty_store)) =
     [Connect, Cursor, ExecCreate, CommitCreate, ExecInsert, FinCloseCur] \<and>
   cn (snd (main example_environ lost_link_plan invoice_blob empty_store)) = Open \<and>
   \<not> released (snd (main example_environ lost_link_plan invoice_blob empty_store))"
  by (simp add: main_def try_body_def finally_block_def initial_def step_eqs example_defs
      create_table_sql_result table_exists_def released_def)

text \<open>
  The same skip on the path where every call returns up to \<open>cn.close()\<close> of line 72,
  which raises: the cursor was closed on line 71, so its second close on line 88
  raises, and line 90 is not reached.
\<close>

lemma close_fault_skips_connection:
  "trace (snd (main example_environ
       (close_fault_plan(FinCloseCur := RaisesDbError ''HY000'' ''Attempt to use a closed cursor.''))
       invoice_blob empty_store)) = body_calls @ [FinCloseCur] \<and>
   cn (snd (main example_environ
       (close_fault_plan(FinCloseCur := RaisesDbError ''HY000'' ''Attempt to use a closed cursor.''))
       invoice_blob empty_store)) = Open"
  by (simp add: main_def try_body_def finally_block_def initial_def step_eqs example_defs
      create_table_sql_result table_exists_def body_calls_def insert_sql_def
      select_count_sql_def map_add_def)

text \<open>
  Where \<open>main\<close> returns, and where both closes of the \<open>finally\<close> block return, no
  handle is left open.
\<close>

lemma released_when_closes_return:
  assumes "fst (main environ plan inputBlob db) = None \<or>
           (plan FinCloseCur = Ok \<and> plan FinCloseCn = Ok)"
  shows "released (snd (main environ plan inputBlob db))"
proof -
  let ?t = "try_body environ plan inputBlob (initial db)"
  from assms show ?thesis
  proof
    assume "fst (main environ plan inputBlob db) = None"
    then have "fst ?t = None" by (simp add: fst_main)
    with try_body_returns_closed[of environ plan inputBlob db] show ?thesis
      unfolding snd_main by (simp add: released_def finally_block_keeps)
  next
    assume "plan FinCloseCur = Ok \<and> plan FinCloseCn = Ok"
    then show ?thesis unfolding snd_main by (simp add: finally_block_releases)
  qed
qed

text \<open>
  C8. The count reads and does not write: whatever the store does, the count step
  leaves both the committed database and the connection's view of it as they were, and
  where the table is there and the two calls return it puts the number of rows of
  \<open>BlobAudit\<close> into \<open>total_count\<close>. So two invocations in a row, for any two events, on
  a store that had no \<open>BlobAudit\<close> table, both return, the second one counts 2, and the
  table holds two rows, with the \<open>Id\<close> values 1 and 2 and the names of the two events.
\<close>

theorem count_all_read_only:
  assumes "environ ''SQLConnectionString'' = Some conn_str" "conn_str \<noteq> []"
    and "\<forall>c \<in> set body_calls. plan_a c = Ok" "\<forall>c \<in> set body_calls. plan_b c = Ok"
    and "\<not> table_exists ''BlobAudit'' db"
  shows "durable (snd (count_all plan s)) = durable s \<and>
         working (snd (count_all plan s)) = working s \<and>
         (table_exists ''BlobAudit'' (working s) \<and> plan ExecCount = Ok \<and> plan FetchOne = Ok
            \<longrightarrow> fst (count_all plan s) = None \<and>
                total_count (snd (count_all plan s)) = Some (length (audit_rows (working s)))) \<and>
         (let s1 = snd (main environ plan_a blob_a db);
              s2 = snd (main environ plan_b blob_b ((durable s1)\<lparr>getdate := t\<rparr>))
          in fst (main environ plan_a blob_a db) = None \<and>
             fst (main environ plan_b blob_b ((durable s1)\<lparr>getdate := t\<rparr>)) = None \<and>
             total_count s2 = Some 2 \<and>
             map row_Id (audit_rows (durable s2)) = [1, 2] \<and>
             map BlobName (audit_rows (durable s2)) = [blob_name blob_a, blob_name blob_b])"
proof -
  let ?s1 = "snd (main environ plan_a blob_a db)"
  let ?db1 = "(durable ?s1)\<lparr>getdate := t\<rparr>"
  have e: "audit_rows db = []" "next_audit_id db = 1"
    using assms(5) by (simp_all add: audit_rows_def next_audit_id_def table_exists_def)
  note m1 = main_success[of environ conn_str plan_a blob_a db, OF assms(1,2,3)]
  note m2 = main_success[of environ conn_str plan_b blob_b ?db1, OF assms(1,2,4)]
  have "fst (main environ plan_a blob_a db) = None" by (rule m1(1))
  moreover have "fst (main environ plan_b blob_b ?db1) = None" by (rule m2(1))
  moreover have "total_count (snd (main environ plan_b blob_b ?db1)) = Some 2"
    using m2(4) m1(2) e by simp
  moreover have "map row_Id (audit_rows (durable (snd (main environ plan_b blob_b ?db1)))) = [1, 2]"
    using m2(2) m1(2,3) e by simp
  moreover have "map BlobName (audit_rows (durable (snd (main environ plan_b blob_b ?db1)))) =
      [blob_name blob_a, blob_name blob_b]"
    using m2(2) m1(2,3) e by simp
  ultimately show ?thesis
    using count_all_frame[of plan s] count_all_result[of s plan] by (simp add: Let_def)
qed

theorem count_all_read_only_witness:
  "total_count (snd (main example_environ double_close_plan orders_blob
       ((durable (snd (main example_environ double_close_plan invoice_blob empty_store)))
          \<lparr>getdate := 5\<rparr>))) = Some 2 \<and>
   map row_Id (audit_rows (durable (snd (main example_environ double_close_plan orders_blob
       ((durable (snd (main example_environ double_close_plan invoice_blob empty_store)))
          \<lparr>getdate := 5\<rparr>))))) = [1, 2]"
  using count_all_read_only[where environ = example_environ and plan_a = double_close_plan
      and plan_b = double_close_plan and conn_str = "''Driver=ODBC;Server=audit''"
      and blob_a = invoice_blob and db = empty_store and t = 5 and blob_b = orders_blob]
  by (simp add: example_defs body_calls_def table_exists_def Let_def)

text \<open>
  C9. A connection string that is there but empty is treated as an absent one: the
  whole result of \<open>main\<close> is the result for the environment without the variable, the
  \<open>ValueError\<close> of line 19, and no call to the store has been made.
\<close>

theorem empty_config_as_absent:
  assumes "environ ''SQLConnectionString'' = Some []"
  shows "main environ plan inputBlob db =
           main (environ(''SQLConnectionString'' := None)) plan inputBlob db \<and>
         fst (main environ plan inputBlob db) = Some ValueError \<and>
         trace (snd (main environ plan inputBlob db)) = []"
  using assms by (simp add: main_no_conn_str initial_def)

theorem empty_config_as_absent_witness:
  "fst (main [''SQLConnectionString'' \<mapsto> []] double_close_plan invoice_blob empty_store) =
     Some ValueError \<and>
   trace (snd (main [''SQLConnectionString'' \<mapsto> []] double_close_plan invoice_blob
     empty_store)) = []"
proof -
  have h: "[''SQLConnectionString'' \<mapsto> []] ''SQLConnectionString'' = Some []"
    by simp
  from empty_config_as_absent[where environ = "[''SQLConnectionString'' \<mapsto> []]"
      and plan = double_close_plan and inputBlob = invoice_blob and db = empty_store, OF h]
  show ?thesis by blast
qed

text \<open>
  C10. The schema step is committed before the insert is attempted: the first five
  calls are connect, cursor, the conditional \<open>CREATE TABLE\<close>, its commit, and the
  insert. So when the insert raises a \<open>pyodbc.Error\<close>, \<open>main\<close> raises that error, the
  committed database has the \<open>BlobAudit\<close> table, also where it had none before, and
  its rows are the rows it had: no row for the event was added.
\<close>

theorem insert_fault_keeps_table:
  assumes "environ ''SQLConnectionString'' = Some conn_str" "conn_str \<noteq> []"
    and "plan Connect = Ok" "plan Cursor = Ok" "plan ExecCreate = Ok" "plan CommitCreate = Ok"
    and "plan ExecInsert = RaisesDbError sqlstate msg"
  shows "fst (main environ plan inputBlob db) = Some (PyodbcError ExecInsert sqlstate msg) \<and>
         table_exists ''BlobAudit'' (durable (snd (main environ plan inputBlob db))) \<and>
         audit_rows (durable (snd (main environ plan inputBlob db))) = audit_rows db \<and>
         take 5 (trace (snd (main environ plan inputBlob db))) =
           [Connect, Cursor, ExecCreate, CommitCreate, ExecInsert]"
proof -
  obtain db1 where c: "create_table_sql db = Inr db1" "table_exists ''BlobAudit'' db1"
    "audit_rows db1 = audit_rows db"
    by (rule create_table_sql_cases)
  have t: "try_body environ plan inputBlob (initial db) =
      (Some (PyodbcError ExecInsert sqlstate msg),
       \<lparr>durable = db1, working = db1, cn = Open, cur = Open,
              pending_row = None, total_count = None,
              trace = [Connect, Cursor, ExecCreate, CommitCreate, ExecInsert]\<rparr>)"
    using assms c(1)
    by (simp add: try_body_def initial_def step_eqs)
  have tr: "take 5 (trace (finally_block plan s)) = take 5 (trace s)"
    if "length (trace s) = 5" for s
    using that by (simp add: finally_block_def step_eqs run_Cons_eq del: run.simps(2))
  show ?thesis
    by (simp add: main_def t finally_block_keeps c tr)
qed

theorem insert_fault_keeps_table_witness:
  "table_exists ''BlobAudit''
     (durable (snd (main example_environ insert_fault_plan invoice_blob empty_store))) \<and>
   audit_rows (durable (snd (main example_environ insert_fault_plan invoice_blob empty_store))) = []"
  using insert_fault_keeps_table[where environ = example_environ and plan = insert_fault_plan
     and conn_str = "''Driver=ODBC;Server=audit''" and inputBlob = invoice_blob
     and db = empty_store]
  by (simp add: example_defs audit_rows_def)

end
